theory Spec2Isabelle
  imports Main "HOL-Library.List_Lexorder" "HOL-Library.Char_ord"
begin

section \<open>Keys, links, nodes and the collaborators of package pin\<close>

text \<open>
  A \<open>key.Key\<close> is a Go string holding the bytes of a multihash. A merkledag node
  carries a list of links (name and target hash) and opaque data; a nil pointer to a
  node is \<open>None\<close>.
\<close>

type_synonym key = string

record link =
  Name :: string
  Hash :: key

record node =
  Links :: "link list"
  Data :: string

text \<open>
  The errors a call of package pin can return. The three \<open>fmt.Errorf\<close> sites of
  \<open>Pin\<close> and \<open>Unpin\<close> and the one of \<open>isPinnedWithType\<close> become constructors that
  keep the arguments of the format string; the errors that \<open>LoadPinner\<close> and \<open>Flush\<close>
  wrap keep the wrapped error. \<open>ErrNotFound\<close> is what the DAG service answers for a
  key it does not hold, \<open>External\<close> any other error of a collaborator.
\<close>

datatype error =
    ErrNotPinned
  | ErrNotFound
  | External string
  | AlreadyPinnedRecursively string
  | IsPinnedRecursively key
  | IsPinnedIndirectly key string
  | InvalidType string
  | CannotLoadPinState error
  | PinStateNotBytes
  | CannotFindPinningRoot error
  | CannotLoadRecursivePins error
  | CannotLoadDirectPins error
  | CannotStorePinState error
  | ErrLinkNotFound
  | ErrMalformedSet

text \<open>A call that may panic either panics with a message or returns.\<close>

datatype 'a outcome = Panics string | Returns 'a

text \<open>
  The DAG service is the content store of the pinner: a finite map from keys to nodes.
  \<open>dserv.Get\<close> answers \<open>ErrNotFound\<close> for an absent key.
\<close>

type_synonym DAGService = "key \<rightharpoonup> node"

definition dag_Get :: "DAGService \<Rightarrow> key \<Rightarrow> error + node" where
  "dag_Get ds k = (case ds k of None \<Rightarrow> Inl ErrNotFound | Some nd \<Rightarrow> Inr nd)"

text \<open>
  What package pin takes from packages that are not part of this development is a
  parameter of every operation: \<open>Key\<close> is \<open>(*mdag.Node).Key\<close> (the multihash of the
  encoded node, or an error), \<open>B58String\<close> is \<open>key.Key.B58String\<close>, \<open>B58KeyDecode\<close> is
  \<open>key.B58KeyDecode\<close>, and \<open>FetchGraph\<close> is \<open>mdag.FetchGraph\<close> run against a DAG
  service (\<open>None\<close> is the nil error).

  \<open>storeSet\<close> and \<open>loadSet\<close> are the two functions of the set codec that \<open>Flush\<close> and
  \<open>LoadPinner\<close> call. \<open>storeSet\<close> is given the DAG service and the keys of a set; it
  answers the top node of the encoding or an error, the DAG service as it has left it,
  and the keys it has reported to its \<open>internalKeys\<close> callback. \<open>loadSet\<close> is given the
  DAG service, the root node and a link name; it answers the keys of the set and the
  keys it has reported to its callback, or an error. \<open>None\<close> is a call that does not
  return.
\<close>

record env =
  Key :: "node \<Rightarrow> error + key"
  B58String :: "key \<Rightarrow> string"
  B58KeyDecode :: "string \<Rightarrow> key"
  FetchGraph :: "DAGService \<Rightarrow> node \<Rightarrow> error option"
  storeSet :: "DAGService \<Rightarrow> key list \<Rightarrow> ((error + node) \<times> DAGService \<times> key list) option"
  loadSet :: "DAGService \<Rightarrow> node \<Rightarrow> string \<Rightarrow> (error + key list \<times> key list) option"

subsection \<open>Block sets\<close>

text \<open>
  \<open>set.BlockSet\<close> (a \<open>SimpleBlockSet\<close>) is a Go map used as a set of keys. Go leaves
  the iteration order of a map open; the model keeps the keys in a list without
  repetitions, whose order stands for the order in which \<open>GetKeys\<close> happens to
  enumerate them. Statements quantify over every such list, hence over every order.
\<close>

type_synonym BlockSet = "key list"

definition HasKey :: "BlockSet \<Rightarrow> key \<Rightarrow> bool" where
  "HasKey s k = (k \<in> set s)"

definition AddBlock :: "BlockSet \<Rightarrow> key \<Rightarrow> BlockSet" where
  "AddBlock s k = (if k \<in> set s then s else s @ [k])"

definition RemoveBlock :: "BlockSet \<Rightarrow> key \<Rightarrow> BlockSet" where
  "RemoveBlock s k = removeAll k s"

definition GetKeys :: "BlockSet \<Rightarrow> key list" where
  "GetKeys s = s"

definition SimpleSetFromKeys :: "key list \<Rightarrow> BlockSet" where
  "SimpleSetFromKeys ks = foldl AddBlock [] ks"

subsection \<open>The datastore holding the durable root pointer\<close>

text \<open>
  A \<open>ds.Datastore\<close> maps datastore keys to values of any Go type; only \<open>[]byte\<close> values
  pass the type assertion of \<open>LoadPinner\<close>. \<open>put_error\<close> is the error the next \<open>Put\<close>
  answers (\<open>None\<close> when it stores the value).
\<close>

datatype dsvalue = Bytes string | NotBytes

record Datastore =
  entries :: "string \<rightharpoonup> dsvalue"
  put_error :: "error option"

definition pinDatastoreKey :: string where
  "pinDatastoreKey = ''/local/pins''"

definition ds_Get :: "Datastore \<Rightarrow> string \<Rightarrow> error + dsvalue" where
  "ds_Get d k = (case entries d k of None \<Rightarrow> Inl ErrNotFound | Some v \<Rightarrow> Inr v)"

definition ds_Put :: "Datastore \<Rightarrow> string \<Rightarrow> dsvalue \<Rightarrow> error + Datastore" where
  "ds_Put d k v =
     (case put_error d of
        Some e \<Rightarrow> Inl e
      | None \<Rightarrow> Inr (d\<lparr>entries := (entries d)(k \<mapsto> v)\<rparr>))"

section \<open>The pinner\<close>

text \<open>
  \<open>PinMode\<close> is a Go \<open>int\<close> with three named values; any other integer is a value of
  the type too.
\<close>

type_synonym PinMode = int

definition Recursive :: PinMode where "Recursive = 0"
definition Direct :: PinMode where "Direct = 1"
definition NotPinned :: PinMode where "NotPinned = 2"

text \<open>
  The struct \<open>pinner\<close> without its lock and its unused block store. \<open>internalPin\<close> is
  a Go map used as a set; it is never enumerated in an order that matters.
\<close>

record pinner =
  recursePin :: BlockSet
  directPin :: BlockSet
  internalPin :: "key set"
  rootNode :: "node option"
  dserv :: DAGService
  dstore :: Datastore

definition NewPinner :: "Datastore \<Rightarrow> DAGService \<Rightarrow> pinner" where
  "NewPinner d serv =
     \<lparr>recursePin = [], directPin = [], internalPin = {}, rootNode = None,
      dserv = serv, dstore = d\<rparr>"

text \<open>\<open>Pin\<close>: the error returned (\<open>None\<close> for nil) and the pinner after the call.\<close>

definition Pin :: "env \<Rightarrow> pinner \<Rightarrow> node \<Rightarrow> bool \<Rightarrow> error option \<times> pinner" where
  "Pin E p nd recurse =
     (case Key E nd of
        Inl err \<Rightarrow> (Some err, p)
      | Inr k \<Rightarrow>
          if recurse then
            if HasKey (recursePin p) k then (None, p)
            else
              let p1 = (if HasKey (directPin p) k
                        then p\<lparr>directPin := RemoveBlock (directPin p) k\<rparr> else p)
              in (case FetchGraph E (dserv p1) nd of
                    Some err \<Rightarrow> (Some err, p1)
                  | None \<Rightarrow> (None, p1\<lparr>recursePin := AddBlock (recursePin p1) k\<rparr>))
          else
            (case dag_Get (dserv p) k of
               Inl err \<Rightarrow> (Some err, p)
             | Inr _ \<Rightarrow>
                 if HasKey (recursePin p) k
                 then (Some (AlreadyPinnedRecursively (B58String E k)), p)
                 else (None, p\<lparr>directPin := AddBlock (directPin p) k\<rparr>)))"

text \<open>
  \<open>hasChild\<close> walks the links of a node depth first and has no cycle detection, so on
  a store with a cycle it need not return: the result \<open>None\<close> is a walk that never
  ends. \<open>hasChildLinks\<close> is the \<open>for\<close> loop over the links still to visit.
\<close>

partial_function (option) hasChildLinks ::
  "DAGService \<Rightarrow> link list \<Rightarrow> key \<Rightarrow> (error + bool) option" where
  "hasChildLinks ds lnks child =
     (case lnks of
        [] \<Rightarrow> Some (Inr False)
      | lnk # rest \<Rightarrow>
          if Hash lnk = child then Some (Inr True)
          else
            (case dag_Get ds (Hash lnk) of
               Inl err \<Rightarrow> Some (Inl err)
             | Inr nd \<Rightarrow>
                 Option.bind (hasChildLinks ds (Links nd) child)
                   (\<lambda>r. case r of
                           Inl err \<Rightarrow> Some (Inl err)
                         | Inr has \<Rightarrow>
                             if has then Some (Inr has)
                             else hasChildLinks ds rest child)))"

declare hasChildLinks.simps [code]

definition hasChild :: "DAGService \<Rightarrow> node \<Rightarrow> key \<Rightarrow> (error + bool) option" where
  "hasChild ds root child = hasChildLinks ds (Links root) child"

text \<open>
  The loop of \<open>isPinnedWithType\<close> over \<open>p.recursePin.GetKeys()\<close>; the result is the
  triple (explanation, pinned, error) of the Go function.
\<close>

fun indirectWalk ::
  "env \<Rightarrow> DAGService \<Rightarrow> key list \<Rightarrow> key \<Rightarrow> (string \<times> bool \<times> error option) option" where
  "indirectWalk E ds [] k = Some ('''', False, None)"
| "indirectWalk E ds (rk # rks) k =
     (case dag_Get ds rk of
        Inl err \<Rightarrow> Some ('''', False, Some err)
      | Inr rnd \<Rightarrow>
          (case hasChild ds rnd k of
             None \<Rightarrow> None
           | Some (Inl err) \<Rightarrow> Some ('''', False, Some err)
           | Some (Inr has) \<Rightarrow>
               if has then Some (B58String E rk, True, None)
               else indirectWalk E ds rks k))"

definition isInternalPin :: "pinner \<Rightarrow> key \<Rightarrow> bool" where
  "isInternalPin p k = (k \<in> internalPin p)"

definition isPinnedWithType ::
  "env \<Rightarrow> pinner \<Rightarrow> key \<Rightarrow> string \<Rightarrow> (string \<times> bool \<times> error option) option" where
  "isPinnedWithType E p k typeStr =
     (if \<not> (typeStr = ''all'' \<or> typeStr = ''direct'' \<or> typeStr = ''indirect''
             \<or> typeStr = ''recursive'' \<or> typeStr = ''internal'')
      then Some ('''', False, Some (InvalidType typeStr))
      else if (typeStr = ''recursive'' \<or> typeStr = ''all'') \<and> HasKey (recursePin p) k
      then Some (''recursive'', True, None)
      else if typeStr = ''recursive'' then Some ('''', False, None)
      else if (typeStr = ''direct'' \<or> typeStr = ''all'') \<and> HasKey (directPin p) k
      then Some (''direct'', True, None)
      else if typeStr = ''direct'' then Some ('''', False, None)
      else if (typeStr = ''internal'' \<or> typeStr = ''all'') \<and> isInternalPin p k
      then Some (''internal'', True, None)
      else if typeStr = ''internal'' then Some ('''', False, None)
      else indirectWalk E (dserv p) (GetKeys (recursePin p)) k)"

definition IsPinned ::
  "env \<Rightarrow> pinner \<Rightarrow> key \<Rightarrow> (string \<times> bool \<times> error option) option" where
  "IsPinned E p k = isPinnedWithType E p k ''all''"

definition IsPinnedWithType ::
  "env \<Rightarrow> pinner \<Rightarrow> key \<Rightarrow> string \<Rightarrow> (string \<times> bool \<times> error option) option" where
  "IsPinnedWithType E p k typeStr = isPinnedWithType E p k typeStr"

text \<open>\<open>Unpin\<close>: \<open>None\<close> when the reachability walk never returns.\<close>

definition Unpin :: "env \<Rightarrow> pinner \<Rightarrow> key \<Rightarrow> bool \<Rightarrow> (error option \<times> pinner) option" where
  "Unpin E p k recursive =
     (case isPinnedWithType E p k ''all'' of
        None \<Rightarrow> None
      | Some (reason, pinned, err) \<Rightarrow>
          Some (case err of
                  Some e \<Rightarrow> (Some e, p)
                | None \<Rightarrow>
                    if \<not> pinned then (Some ErrNotPinned, p)
                    else if reason = ''recursive'' then
                      (if recursive
                       then (None, p\<lparr>recursePin := RemoveBlock (recursePin p) k\<rparr>)
                       else (Some (IsPinnedRecursively k), p))
                    else if reason = ''direct''
                    then (None, p\<lparr>directPin := RemoveBlock (directPin p) k\<rparr>)
                    else (Some (IsPinnedIndirectly k reason), p)))"

definition RemovePinWithMode :: "pinner \<Rightarrow> key \<Rightarrow> PinMode \<Rightarrow> pinner outcome" where
  "RemovePinWithMode p k mode =
     (if mode = Direct then Returns (p\<lparr>directPin := RemoveBlock (directPin p) k\<rparr>)
      else if mode = Recursive then Returns (p\<lparr>recursePin := RemoveBlock (recursePin p) k\<rparr>)
      else Panics ''unrecognized pin type'')"

definition PinWithMode :: "pinner \<Rightarrow> key \<Rightarrow> PinMode \<Rightarrow> pinner outcome" where
  "PinWithMode p k mode =
     (if mode = Recursive then Returns (p\<lparr>recursePin := AddBlock (recursePin p) k\<rparr>)
      else if mode = Direct then Returns (p\<lparr>directPin := AddBlock (directPin p) k\<rparr>)
      else Returns p)"

definition DirectKeys :: "pinner \<Rightarrow> key list" where
  "DirectKeys p = GetKeys (directPin p)"

definition RecursiveKeys :: "pinner \<Rightarrow> key list" where
  "RecursiveKeys p = GetKeys (recursePin p)"

definition InternalPins :: "pinner \<Rightarrow> key set" where
  "InternalPins p = internalPin p"

section \<open>Flush and LoadPinner\<close>

text \<open>
  The operations of package merkledag that \<open>Flush\<close> and \<open>LoadPinner\<close> use, over the
  store: \<open>Add\<close> files a node under its key, \<open>Remove\<close> deletes the entry of the key of
  a node (\<open>Flush\<close> ignores its error), \<open>AddNodeLink\<close> appends a named link to the key of
  a node, \<open>GetNode\<close> fetches the target of a link. \<open>emptyNode\<close> is \<open>new(mdag.Node)\<close>.
\<close>

definition emptyNode :: node where
  "emptyNode = \<lparr>Links = [], Data = []\<rparr>"

definition emptyKey :: "env \<Rightarrow> key" where
  "emptyKey E = B58KeyDecode E ''QmdfTbBqBPQ7VNxZEYEj14VmRuZBkqFbiwReogJgS1zR1n''"

definition linkDirect :: string where "linkDirect = ''direct''"
definition linkRecursive :: string where "linkRecursive = ''recursive''"

definition dag_Add ::
  "(node \<Rightarrow> error + key) \<Rightarrow> DAGService \<Rightarrow> node \<Rightarrow> error + key \<times> DAGService" where
  "dag_Add kf ds nd =
     (case kf nd of Inl err \<Rightarrow> Inl err | Inr k \<Rightarrow> Inr (k, ds(k \<mapsto> nd)))"

definition dag_Remove :: "(node \<Rightarrow> error + key) \<Rightarrow> DAGService \<Rightarrow> node \<Rightarrow> DAGService" where
  "dag_Remove kf ds nd = (case kf nd of Inl err \<Rightarrow> ds | Inr k \<Rightarrow> ds(k := None))"

definition AddNodeLink :: "(node \<Rightarrow> error + key) \<Rightarrow> node \<Rightarrow> string \<Rightarrow> node \<Rightarrow> error + node" where
  "AddNodeLink kf n name that =
     (case kf that of
        Inl err \<Rightarrow> Inl err
      | Inr k \<Rightarrow> Inr (n\<lparr>Links := Links n @ [\<lparr>Name = name, Hash = k\<rparr>]\<rparr>))"

definition GetNode :: "DAGService \<Rightarrow> link \<Rightarrow> error + node" where
  "GetNode ds lnk = dag_Get ds (Hash lnk)"

text \<open>
  The cleanup at the end of \<open>Flush\<close>: the loop over the links of the old root removes
  every child that can still be fetched, then the old root itself is removed.
\<close>

fun removeChildren :: "(node \<Rightarrow> error + key) \<Rightarrow> DAGService \<Rightarrow> link list \<Rightarrow> DAGService" where
  "removeChildren kf ds [] = ds"
| "removeChildren kf ds (lnk # rest) =
     removeChildren kf
       (case GetNode ds lnk of Inl err \<Rightarrow> ds | Inr child \<Rightarrow> dag_Remove kf ds child) rest"

definition cleanupOldRoot :: "(node \<Rightarrow> error + key) \<Rightarrow> DAGService \<Rightarrow> node option \<Rightarrow> DAGService" where
  "cleanupOldRoot kf ds old =
     (case old of
        None \<Rightarrow> ds
      | Some r \<Rightarrow> dag_Remove kf (removeChildren kf ds (Links r)) r)"

text \<open>
  \<open>Flush\<close> in two parts. \<open>flushWrite\<close> is the body up to and including the write of the
  root pointer (pin.go:312-354): it answers the error and the DAG service as the failing
  step has left it, or the new root, its key, the new set of internal keys, the DAG
  service and the datastore. The DAG service is mutated in place, so what was written
  before an error stays written. \<open>Flush\<close> then cleans up the old root and installs the
  new values (pin.go:356-368). \<open>None\<close> is a call in which \<open>storeSet\<close> does not return.
\<close>

definition flushWrite ::
  "env \<Rightarrow> pinner
     \<Rightarrow> (error \<times> DAGService + node \<times> key \<times> key set \<times> DAGService \<times> Datastore) option" where
  "flushWrite E p =
     (case storeSet E (dserv p) (GetKeys (directPin p)) of
        None \<Rightarrow> None
      | Some (Inl err, ds1, rec1) \<Rightarrow> Some (Inl (err, ds1))
      | Some (Inr n1, ds1, rec1) \<Rightarrow>
     (case AddNodeLink (Key E) emptyNode linkDirect n1 of
        Inl err \<Rightarrow> Some (Inl (err, ds1))
      | Inr root1 \<Rightarrow>
     (case storeSet E ds1 (GetKeys (recursePin p)) of
        None \<Rightarrow> None
      | Some (Inl err, ds2, rec2) \<Rightarrow> Some (Inl (err, ds2))
      | Some (Inr n2, ds2, rec2) \<Rightarrow>
     (case AddNodeLink (Key E) root1 linkRecursive n2 of
        Inl err \<Rightarrow> Some (Inl (err, ds2))
      | Inr root \<Rightarrow>
     (case dag_Add (Key E) ds2 emptyNode of
        Inl err \<Rightarrow> Some (Inl (err, ds2))
      | Inr (ke, ds3) \<Rightarrow>
     (case dag_Add (Key E) ds3 root of
        Inl err \<Rightarrow> Some (Inl (err, ds3))
      | Inr (k, ds4) \<Rightarrow>
     (case ds_Put (dstore p) pinDatastoreKey (Bytes k) of
        Inl err \<Rightarrow> Some (Inl (CannotStorePinState err, ds4))
      | Inr d' \<Rightarrow>
          Some (Inr (root, k, insert k (set rec1 \<union> set rec2), ds4, d')))))))))"

definition Flush :: "env \<Rightarrow> pinner \<Rightarrow> (error option \<times> pinner) option" where
  "Flush E p =
     (case flushWrite E p of
        None \<Rightarrow> None
      | Some (Inl (err, ds)) \<Rightarrow> Some (Some err, p\<lparr>dserv := ds\<rparr>)
      | Some (Inr (root, k, internal, ds4, d')) \<Rightarrow>
          Some (None,
            p\<lparr>rootNode := Some root,
              internalPin := internal,
              dserv := cleanupOldRoot (Key E) ds4 (rootNode p),
              dstore := d'\<rparr>))"

text \<open>
  \<open>LoadPinner\<close>: an error or the loaded pinner; \<open>None\<close> when \<open>loadSet\<close> does not return.
  The deadline of five seconds on the context is not modelled.
\<close>

definition LoadPinner :: "env \<Rightarrow> Datastore \<Rightarrow> DAGService \<Rightarrow> (error + pinner) option" where
  "LoadPinner E d serv =
     (case ds_Get d pinDatastoreKey of
        Inl err \<Rightarrow> Some (Inl (CannotLoadPinState err))
      | Inr NotBytes \<Rightarrow> Some (Inl PinStateNotBytes)
      | Inr (Bytes rootKey) \<Rightarrow>
     (case dag_Get serv rootKey of
        Inl err \<Rightarrow> Some (Inl (CannotFindPinningRoot err))
      | Inr root \<Rightarrow>
     (case loadSet E serv root linkRecursive of
        None \<Rightarrow> None
      | Some (Inl err) \<Rightarrow> Some (Inl (CannotLoadRecursivePins err))
      | Some (Inr (recurseKeys, seen1)) \<Rightarrow>
     (case loadSet E serv root linkDirect of
        None \<Rightarrow> None
      | Some (Inl err) \<Rightarrow> Some (Inl (CannotLoadDirectPins err))
      | Some (Inr (directKeys, seen2)) \<Rightarrow>
          Some (Inr
            \<lparr>recursePin = SimpleSetFromKeys recurseKeys,
             directPin = SimpleSetFromKeys directKeys,
             internalPin = insert rootKey (set seen1 \<union> set seen2),
             rootNode = Some root,
             dserv = serv,
             dstore = d\<rparr>)))))"

section \<open>The set codec\<close>

text \<open>
  Modelled from the spec: the set codec of package pin (\<open>storeSet\<close>, \<open>loadSet\<close> and the
  multiset functions behind them, file \<open>pin/set.go\<close>) is missing from the sources. The
  definitions of this section follow section 4.1 of the specification: a mapping from
  keys to positive counts is sharded over a tree of fixed degree \<open>fanout\<close>, keyed by a
  hash of the key; a group of entries is written as one leaf that lists its (key,
  count) pairs when it has at most \<open>maxItems\<close> entries, and is otherwise split into
  \<open>fanout\<close> buckets, each bucket being encoded in the same way; an empty bucket is the
  link to the well-known empty node and is not written. Entries with the count zero
  are dropped and the entries are taken in the order of their keys, so that the
  encoding depends on the mapping alone.

  The specification names one hash of the key. The bucket of an entry at depth \<open>d\<close> of
  the tree is the digit \<open>d\<close> of the hash of its key in base \<open>fanout\<close>: every entry
  travels with the part of its hash that is not used yet. A group of more than
  \<open>maxItems\<close> entries whose remaining hashes are all equal falls into one bucket at
  every depth, so splitting it does not end: this is the result \<open>None\<close>, as is a
  split with fewer than two buckets.
\<close>

type_synonym item = "key \<times> nat"

record setParams =
  fanout :: nat
  maxItems :: nat
  hash :: "key \<Rightarrow> nat"

datatype shard = Empty | Leaf "item list" | Inner "shard list"

definition bucketsOf :: "nat \<Rightarrow> (item \<times> nat) list \<Rightarrow> (item \<times> nat) list list" where
  "bucketsOf F items =
     map (\<lambda>i. map (\<lambda>x. (fst x, snd x div F)) (filter (\<lambda>x. snd x mod F = i) items)) [0..<F]"

function shardOf :: "setParams \<Rightarrow> (item \<times> nat) list \<Rightarrow> shard option" where
  "shardOf P items =
     (if items = [] then Some Empty
      else if length items \<le> maxItems P then Some (Leaf (map fst items))
      else if fanout P < 2 \<or> (\<forall>x \<in> set items. snd x = snd (hd items)) then None
      else map_option Inner (those (map (shardOf P) (bucketsOf (fanout P) items))))"
  by pat_completeness auto
termination
proof (relation "measure (\<lambda>(P, items). sum_list (map snd items))", goal_cases)
  case 1
  show ?case by simp
next
  case (2 P items b)
  let ?F = "fanout P"
  from 2 have F: "2 \<le> ?F" and ne: "items \<noteq> []"
    and x: "\<exists>x \<in> set items. snd x \<noteq> snd (hd items)" by auto
  have pos: "\<exists>y \<in> set items. 0 < snd y"
  proof (rule ccontr)
    assume "\<not> (\<exists>y \<in> set items. 0 < snd y)"
    then have z: "\<forall>y \<in> set items. snd y = 0" by simp
    moreover from ne have "hd items \<in> set items" by simp
    ultimately have "snd (hd items) = 0" by blast
    with z x show False by simp
  qed
  from 2 obtain i where
    b: "b = map (\<lambda>x. (fst x, snd x div ?F)) (filter (\<lambda>x. snd x mod ?F = i) items)"
    by (auto simp: bucketsOf_def)
  have le: "sum_list (map snd (map (\<lambda>x. (fst x, snd x div ?F)) (filter Q xs)))
              \<le> sum_list (map (\<lambda>x. snd x div ?F) xs)" for Q and xs :: "(item \<times> nat) list"
    by (induction xs) auto
  have lt: "(\<exists>x \<in> set xs. 0 < snd x) \<Longrightarrow>
              sum_list (map (\<lambda>x. snd x div ?F) xs) < sum_list (map snd xs)"
    for xs :: "(item \<times> nat) list"
  proof (induction xs)
    case Nil
    then show ?case by simp
  next
    case (Cons x xs)
    have all: "sum_list (map (\<lambda>x. snd x div ?F) xs) \<le> sum_list (map snd xs)"
      by (induction xs) (auto intro: add_mono)
    have x: "snd x div ?F \<le> snd x" by simp
    show ?case
    proof (cases "0 < snd x")
      case True
      with F have "snd x div ?F < snd x" by simp
      with all show ?thesis by simp
    next
      case False
      with Cons.prems have "\<exists>x \<in> set xs. 0 < snd x" by auto
      from add_le_less_mono[OF x Cons.IH[OF this]] show ?thesis by simp
    qed
  qed
  from le[of "\<lambda>x. snd x mod ?F = i" items] lt[OF pos] show ?case unfolding b by simp
qed

text \<open>
  The bytes of a leaf: the tag \<open>L\<close> and the counts, each written as that many digits
  \<open>1\<close> and a comma. An inner node carries the tag \<open>I\<close>.
\<close>

fun encCounts :: "nat list \<Rightarrow> string" where
  "encCounts [] = []"
| "encCounts (c # cs) = replicate c (CHR ''1'') @ CHR '','' # encCounts cs"

fun decCounts :: "nat \<Rightarrow> string \<Rightarrow> nat list option" where
  "decCounts acc [] = (if acc = 0 then Some [] else None)"
| "decCounts acc (ch # s) =
     (if ch = CHR ''1'' then decCounts (Suc acc) s
      else if ch = CHR '','' then map_option ((#) acc) (decCounts 0 s)
      else None)"

definition leafNode :: "item list \<Rightarrow> node" where
  "leafNode items =
     \<lparr>Links = map (\<lambda>it. \<lparr>Name = [], Hash = fst it\<rparr>) items,
      Data = CHR ''L'' # encCounts (map snd items)\<rparr>"

definition innerNode :: "key list \<Rightarrow> node" where
  "innerNode ks = \<lparr>Links = map (\<lambda>k. \<lparr>Name = [], Hash = k\<rparr>) ks, Data = ''I''\<rparr>"

definition keyOf :: "(node \<Rightarrow> error + key) \<Rightarrow> node \<Rightarrow> key" where
  "keyOf kf nd = (case kf nd of Inl err \<Rightarrow> [] | Inr k \<Rightarrow> k)"

text \<open>
  The node of a shard, the nodes that encoding a shard creates (children before their
  parent) and the identifiers it creates or reuses. \<open>ek\<close> is the key of the empty node.
\<close>

fun shardNode :: "(node \<Rightarrow> error + key) \<Rightarrow> key \<Rightarrow> shard \<Rightarrow> node" where
  "shardNode kf ek Empty = emptyNode"
| "shardNode kf ek (Leaf items) = leafNode items"
| "shardNode kf ek (Inner ts) =
     innerNode (map (\<lambda>t. if t = Empty then ek else keyOf kf (shardNode kf ek t)) ts)"

definition shardKey :: "(node \<Rightarrow> error + key) \<Rightarrow> key \<Rightarrow> shard \<Rightarrow> key" where
  "shardKey kf ek t = (if t = Empty then ek else keyOf kf (shardNode kf ek t))"

fun created :: "(node \<Rightarrow> error + key) \<Rightarrow> key \<Rightarrow> shard \<Rightarrow> node list" where
  "created kf ek Empty = []"
| "created kf ek (Leaf items) = [leafNode items]"
| "created kf ek (Inner ts) =
     concat (map (created kf ek) ts) @ [shardNode kf ek (Inner ts)]"

fun idents :: "(node \<Rightarrow> error + key) \<Rightarrow> key \<Rightarrow> shard \<Rightarrow> key list" where
  "idents kf ek Empty = [ek]"
| "idents kf ek (Leaf items) = [keyOf kf (leafNode items)]"
| "idents kf ek (Inner ts) =
     concat (map (idents kf ek) ts) @ [keyOf kf (shardNode kf ek (Inner ts))]"

fun itemsOf :: "shard \<Rightarrow> item list" where
  "itemsOf Empty = []"
| "itemsOf (Leaf items) = items"
| "itemsOf (Inner ts) = concat (map itemsOf ts)"

fun addAll :: "(node \<Rightarrow> error + key) \<Rightarrow> DAGService \<Rightarrow> node list \<Rightarrow> error option \<times> DAGService" where
  "addAll kf ds [] = (None, ds)"
| "addAll kf ds (nd # nds) =
     (case dag_Add kf ds nd of
        Inl err \<Rightarrow> (Some err, ds)
      | Inr (k, ds') \<Rightarrow> addAll kf ds' nds)"

text \<open>
  \<open>Encode\<close> writes the nodes of the encoding and answers the top node, the store and
  the identifiers for the collector. The top node is written also when it is the
  empty node.
\<close>

definition canonical :: "item list \<Rightarrow> item list" where
  "canonical m = sort_key fst (filter (\<lambda>it. 0 < snd it) m)"

definition Encode ::
  "(node \<Rightarrow> error + key) \<Rightarrow> key \<Rightarrow> setParams \<Rightarrow> DAGService \<Rightarrow> item list
     \<Rightarrow> ((error + node) \<times> DAGService \<times> key list) option" where
  "Encode kf ek P ds m =
     (case shardOf P (map (\<lambda>it. (it, hash P (fst it))) (canonical m)) of
        None \<Rightarrow> None
      | Some t \<Rightarrow>
          Some (case addAll kf ds (if t = Empty then [emptyNode] else created kf ek t) of
                  (Some err, ds') \<Rightarrow> (Inl err, ds', [])
                | (None, ds') \<Rightarrow>
                    (Inr (shardNode kf ek t), ds',
                     remdups (if t = Empty then [keyOf kf emptyNode] else idents kf ek t))))"

text \<open>
  \<open>Decode\<close> follows the named link of the root and visits the nodes below it, a list
  of keys still to visit; it fails when a node cannot be fetched or cannot be parsed.
  The link to the empty node stands for no entries and is not fetched. On a store with
  a cycle the walk need not return.
\<close>

datatype parsed = LeafItems "item list" | Children "key list"

definition parseSetNode :: "node \<Rightarrow> error + parsed" where
  "parseSetNode nd =
     (if Links nd = [] \<and> Data nd = [] then Inr (LeafItems [])
      else
        (case Data nd of
           [] \<Rightarrow> Inl ErrMalformedSet
         | tag # rest \<Rightarrow>
             if tag = CHR ''L'' then
               (case decCounts 0 rest of
                  None \<Rightarrow> Inl ErrMalformedSet
                | Some cs \<Rightarrow>
                    if length cs = length (Links nd)
                    then Inr (LeafItems (zip (map Hash (Links nd)) cs))
                    else Inl ErrMalformedSet)
             else if tag = CHR ''I'' \<and> rest = [] then Inr (Children (map Hash (Links nd)))
             else Inl ErrMalformedSet))"

definition visited :: "item list \<Rightarrow> key \<Rightarrow> error + item list \<times> key list \<Rightarrow> error + item list \<times> key list" where
  "visited its k r =
     (case r of Inl err \<Rightarrow> Inl err | Inr (its', seen) \<Rightarrow> Inr (its @ its', k # seen))"

partial_function (option) walkItems ::
  "key \<Rightarrow> DAGService \<Rightarrow> key list \<Rightarrow> (error + item list \<times> key list) option" where
  "walkItems ek ds todo =
     (case todo of
        [] \<Rightarrow> Some (Inr ([], []))
      | k # rest \<Rightarrow>
          if k = ek then Option.bind (walkItems ek ds rest) (\<lambda>r. Some (visited [] k r))
          else
            (case dag_Get ds k of
               Inl err \<Rightarrow> Some (Inl err)
             | Inr nd \<Rightarrow>
                 (case parseSetNode nd of
                    Inl err \<Rightarrow> Some (Inl err)
                  | Inr (LeafItems its) \<Rightarrow>
                      Option.bind (walkItems ek ds rest) (\<lambda>r. Some (visited its k r))
                  | Inr (Children cs) \<Rightarrow>
                      Option.bind (walkItems ek ds (cs @ rest)) (\<lambda>r. Some (visited [] k r)))))"

declare walkItems.simps [code]

definition GetNodeLink :: "node \<Rightarrow> string \<Rightarrow> error + link" where
  "GetNodeLink nd name =
     (case find (\<lambda>l. Name l = name) (Links nd) of
        None \<Rightarrow> Inl ErrLinkNotFound
      | Some l \<Rightarrow> Inr l)"

definition Decode ::
  "key \<Rightarrow> DAGService \<Rightarrow> node \<Rightarrow> string \<Rightarrow> (error + item list \<times> key list) option" where
  "Decode ek ds root name =
     (case GetNodeLink root name of
        Inl err \<Rightarrow> Some (Inl err)
      | Inr l \<Rightarrow> walkItems ek ds [Hash l])"

text \<open>The two functions that the pinner calls: every key of a set has the count one.\<close>

definition codecStoreSet ::
  "(node \<Rightarrow> error + key) \<Rightarrow> key \<Rightarrow> setParams \<Rightarrow> DAGService \<Rightarrow> key list
     \<Rightarrow> ((error + node) \<times> DAGService \<times> key list) option" where
  "codecStoreSet kf ek P ds ks = Encode kf ek P ds (map (\<lambda>k. (k, 1)) ks)"

definition codecLoadSet ::
  "key \<Rightarrow> DAGService \<Rightarrow> node \<Rightarrow> string \<Rightarrow> (error + key list \<times> key list) option" where
  "codecLoadSet ek ds root name =
     map_option
       (\<lambda>r. case r of Inl err \<Rightarrow> Inl err | Inr (its, seen) \<Rightarrow> Inr (map fst its, seen))
       (Decode ek ds root name)"

section \<open>Reachability, call sequences and example data\<close>

text \<open>
  \<open>reaches ds lnks k\<close>: the key \<open>k\<close> is the target of one of the links \<open>lnks\<close> or of
  a link of a node that the store \<open>ds\<close> holds below them. This is the relation that the
  depth-first walk of \<open>hasChild\<close> decides; \<open>walkAnswer\<close> says what a returned answer of
  the walk means in terms of it.
\<close>

inductive reaches :: "DAGService \<Rightarrow> link list \<Rightarrow> key \<Rightarrow> bool" where
  here: "lnk \<in> set lnks \<Longrightarrow> Hash lnk = k \<Longrightarrow> reaches ds lnks k"
| below: "lnk \<in> set lnks \<Longrightarrow> ds (Hash lnk) = Some nd \<Longrightarrow> reaches ds (Links nd) k
          \<Longrightarrow> reaches ds lnks k"

definition walkAnswer :: "DAGService \<Rightarrow> link list \<Rightarrow> key \<Rightarrow> error + bool \<Rightarrow> bool" where
  "walkAnswer ds lnks child y =
     (case y of Inl e \<Rightarrow> e = ErrNotFound | Inr has \<Rightarrow> has = reaches ds lnks child)"

text \<open>A sequence of \<open>Pin\<close> and \<open>Unpin\<close> calls; errors leave the pinner as the call left it.\<close>

datatype op = OpPin node bool | OpUnpin key bool

fun run :: "env \<Rightarrow> pinner \<Rightarrow> op list \<Rightarrow> pinner option" where
  "run E p [] = Some p"
| "run E p (OpPin nd recurse # ops) = run E (snd (Pin E p nd recurse)) ops"
| "run E p (OpUnpin k recursive # ops) =
     (case Unpin E p k recursive of None \<Rightarrow> None | Some (err, p') \<Rightarrow> run E p' ops)"

definition disjointPins :: "pinner \<Rightarrow> bool" where
  "disjointPins p = (set (recursePin p) \<inter> set (directPin p) = {})"

text \<open>
  Example data: a node \<open>A\<close> with two children \<open>B\<close> and \<open>C\<close>, a store that holds \<open>A\<close> and
  \<open>B\<close> but not \<open>C\<close>, and an instance of the collaborators (a key function that writes
  out the links and the data of a node, a graph fetch that needs every child of the
  node in the store).
\<close>

definition demoKey :: "node \<Rightarrow> error + key" where
  "demoKey nd =
     (if nd = emptyNode then Inr ''dfTbBqBPQ7VNxZEYEj14VmRuZBkqFbiwReogJgS1zR1n''
      else Inr (concat (map (\<lambda>l. Name l @ ''>'' @ Hash l @ '';'') (Links nd)) @ ''#'' @ Data nd))"

definition demoFetch :: "DAGService \<Rightarrow> node \<Rightarrow> error option" where
  "demoFetch ds nd = (if \<forall>l \<in> set (Links nd). ds (Hash l) \<noteq> None then None else Some ErrNotFound)"

definition demoParams :: setParams where
  "demoParams = \<lparr>fanout = 2, maxItems = 1, hash = length\<rparr>"

definition demoEnv :: env where
  "demoEnv =
     \<lparr>Key = demoKey, B58String = (\<lambda>k. ''Qm'' @ k), B58KeyDecode = drop 2,
      FetchGraph = demoFetch,
      storeSet = codecStoreSet demoKey (drop 2 ''QmdfTbBqBPQ7VNxZEYEj14VmRuZBkqFbiwReogJgS1zR1n'') demoParams,
      loadSet = codecLoadSet (drop 2 ''QmdfTbBqBPQ7VNxZEYEj14VmRuZBkqFbiwReogJgS1zR1n'')\<rparr>"

definition nodeB :: node where "nodeB = \<lparr>Links = [], Data = ''B''\<rparr>"
definition nodeC :: node where "nodeC = \<lparr>Links = [], Data = ''C''\<rparr>"
definition nodeA :: node where
  "nodeA = \<lparr>Links = [\<lparr>Name = ''b'', Hash = ''#B''\<rparr>, \<lparr>Name = ''c'', Hash = ''#C''\<rparr>], Data = ''A''\<rparr>"
definition keyA :: key where "keyA = ''b>#B;c>#C;#A''"

definition demoStore :: DAGService where
  "demoStore = [keyA \<mapsto> nodeA, ''#B'' \<mapsto> nodeB]"

definition demoDatastore :: Datastore where
  "demoDatastore = \<lparr>entries = Map.empty, put_error = None\<rparr>"

definition fullStore :: DAGService where
  "fullStore = [keyA \<mapsto> nodeA, ''#B'' \<mapsto> nodeB, ''#C'' \<mapsto> nodeC]"

definition emptyPinner :: pinner where
  "emptyPinner = NewPinner demoDatastore demoStore"

definition demoOps :: "op list" where
  "demoOps = [OpPin nodeB False, OpPin nodeA False, OpPin nodeB True, OpUnpin keyA False]"

definition demoFinal :: pinner where
  "demoFinal = emptyPinner\<lparr>recursePin := [''#B'']\<rparr>"

definition pinnedC :: pinner where
  "pinnedC = emptyPinner\<lparr>recursePin := [''#C'']\<rparr>"

definition pinnedA :: pinner where
  "pinnedA = emptyPinner\<lparr>recursePin := [keyA]\<rparr>"

definition directA :: pinner where
  "directA = emptyPinner\<lparr>directPin := [keyA]\<rparr>"

section \<open>Basic facts\<close>

lemma hasChildLinks_Nil: "hasChildLinks ds [] c = Some (Inr False)"
  by (subst hasChildLinks.simps) simp

lemma hasChildLinks_Cons: "hasChildLinks ds (lnk # rest) child =
          (if Hash lnk = child then Some (Inr True)
          else
            (case dag_Get ds (Hash lnk) of
               Inl err \<Rightarrow> Some (Inl err)
             | Inr nd \<Rightarrow>
                 Option.bind (hasChildLinks ds (Links nd) child)
                   (\<lambda>r. case r of
                           Inl err \<Rightarrow> Some (Inl err)
                         | Inr has \<Rightarrow>
                             if has then Some (Inr has)
                             else hasChildLinks ds rest child)))"
  by (subst hasChildLinks.simps) simp

lemmas demo_defs = demoEnv_def demoKey_def demoFetch_def emptyNode_def nodeA_def nodeB_def nodeC_def keyA_def
  demoStore_def demoDatastore_def fullStore_def emptyPinner_def NewPinner_def demoOps_def
  demoFinal_def pinnedC_def pinnedA_def directA_def

lemmas op_defs = Pin_def Unpin_def isPinnedWithType_def IsPinnedWithType_def HasKey_def
  AddBlock_def RemoveBlock_def GetKeys_def dag_Get_def hasChild_def isInternalPin_def
  hasChildLinks_Nil hasChildLinks_Cons

lemma reaches_Nil: "\<not> reaches ds [] k"
  by (auto elim: reaches.cases)

lemma reaches_Cons:
  "reaches ds (lnk # rest) k \<longleftrightarrow>
     Hash lnk = k \<or> (\<exists>nd. ds (Hash lnk) = Some nd \<and> reaches ds (Links nd) k) \<or> reaches ds rest k"
  apply (rule iffI)
   apply (erule reaches.cases)
    apply (auto intro: reaches.intros)[2]
  apply (auto intro: reaches.intros)
  apply (erule reaches.cases)
   apply (auto intro: reaches.intros)
  done

lemma hasChildLinks_sound:
  assumes "hasChildLinks ds lnks child = Some y"
  shows "walkAnswer ds lnks child y"
proof (rule hasChildLinks.raw_induct[OF _ assms], goal_cases)
  case (1 f ds lnks child y)
  show ?case
  proof (cases lnks)
    case Nil
    with 1(2) show ?thesis by (auto simp: reaches_Nil walkAnswer_def)
  next
    case (Cons lnk rest)
    show ?thesis
    proof (cases "Hash lnk = child")
      case True
      with 1(2) Cons show ?thesis by (auto simp: reaches_Cons walkAnswer_def)
    next
      case False
      show ?thesis
      proof (cases "ds (Hash lnk)")
        case None
        with 1(2) Cons False show ?thesis by (auto simp: dag_Get_def walkAnswer_def)
      next
        case (Some nd)
        with 1(2) Cons False obtain r where r: "f ds (Links nd) child = Some r"
          and rest: "(case r of Inl err \<Rightarrow> Some (Inl err)
                      | Inr has \<Rightarrow> if has then Some (Inr has) else f ds rest child) = Some y"
          by (auto simp: dag_Get_def bind_eq_Some_conv)
        note ih1 = 1(1)[OF r]
        show ?thesis
        proof (cases r)
          case (Inl e)
          with rest ih1 show ?thesis by (auto simp: walkAnswer_def)
        next
          case (Inr has)
          show ?thesis
          proof (cases has)
            case True
            with Inr rest ih1 Cons Some show ?thesis by (auto simp: reaches_Cons walkAnswer_def)
          next
            case False2: False
            with Inr rest have "f ds rest child = Some y" by simp
            from 1(1)[OF this] ih1 Inr False2 Cons Some False show ?thesis
              by (auto simp: reaches_Cons walkAnswer_def split: sum.splits)
          qed
        qed
      qed
    qed
  qed
qed

lemma indirectWalk_result:
  "indirectWalk E ds rks k = Some (s, b, err) \<Longrightarrow>
     (case err of
        Some e \<Rightarrow> e = ErrNotFound \<and> \<not> b \<and> s = ''''
      | None \<Rightarrow>
          if b then \<exists>rk \<in> set rks. \<exists>rnd. ds rk = Some rnd \<and> reaches ds (Links rnd) k
                     \<and> s = B58String E rk
          else s = '''' \<and> (\<forall>rk \<in> set rks. \<exists>rnd. ds rk = Some rnd \<and> \<not> reaches ds (Links rnd) k))"
proof (induction rks)
  case Nil
  then show ?case by simp
next
  case (Cons rk rks)
  show ?case
  proof (cases "ds rk")
    case None
    with Cons.prems show ?thesis by (auto simp: dag_Get_def)
  next
    case (Some rnd)
    show ?thesis
    proof (cases "hasChild ds rnd k")
      case None
      with Cons.prems Some show ?thesis by (simp add: dag_Get_def)
    next
      case Some2: (Some y)
      from hasChildLinks_sound[OF Some2[unfolded hasChild_def]]
      have a: "walkAnswer ds (Links rnd) k y" .
      show ?thesis
      proof (cases y)
        case (Inl e)
        with a Cons.prems Some Some2 show ?thesis
          by (auto simp: dag_Get_def walkAnswer_def)
      next
        case (Inr has)
        show ?thesis
        proof (cases has)
          case True
          with Inr a Cons.prems Some Some2 show ?thesis
            by (auto simp: dag_Get_def walkAnswer_def)
        next
          case False
          with Inr Cons.prems Some Some2 have "indirectWalk E ds rks k = Some (s, b, err)"
            by (simp add: dag_Get_def)
          from Cons.IH[OF this] a Inr False Some show ?thesis
            by (auto simp: walkAnswer_def split: option.splits if_splits)
        qed
      qed
    qed
  qed
qed

lemma Pin_disjoint: "disjointPins p \<Longrightarrow> disjointPins (snd (Pin E p nd recurse))"
  by (auto simp: Pin_def disjointPins_def HasKey_def AddBlock_def RemoveBlock_def Let_def
           split: sum.splits option.splits)

lemma Unpin_disjoint: "disjointPins p \<Longrightarrow> Unpin E p k r = Some (err, p') \<Longrightarrow> disjointPins p'"
  by (auto simp: Unpin_def disjointPins_def RemoveBlock_def
           split: option.splits prod.splits if_splits)

lemma run_disjoint: "disjointPins p \<Longrightarrow> run E p ops = Some p' \<Longrightarrow> disjointPins p'"
proof (induction ops arbitrary: p)
  case Nil
  then show ?case by simp
next
  case (Cons a ops)
  show ?case
  proof (cases a)
    case (OpPin nd recurse)
    with Cons.prems Cons.IH[OF Pin_disjoint[OF Cons.prems(1)]] show ?thesis by simp
  next
    case (OpUnpin k r)
    with Cons.prems obtain err q where u: "Unpin E p k r = Some (err, q)" and r: "run E q ops = Some p'"
      by (auto split: option.splits)
    from Cons.IH[OF Unpin_disjoint[OF Cons.prems(1) u] r] show ?thesis .
  qed
qed

lemma NewPinner_disjoint: "disjointPins (NewPinner d serv)"
  by (simp add: disjointPins_def NewPinner_def)

section \<open>Pin and Unpin\<close>

text \<open>
  Claim C2. Starting from \<open>NewPinner\<close>, after any sequence of \<open>Pin\<close> and \<open>Unpin\<close> calls no
  key is in both \<open>recursePin\<close> and \<open>directPin\<close>. In such a state a recursive \<open>Pin\<close> leaves
  its target out of \<open>directPin\<close>, and a direct \<open>Pin\<close> of a recursively pinned target
  fails and leaves \<open>directPin\<close> as it was.
\<close>

theorem pins_never_both:
  assumes "run E (NewPinner d serv) ops = Some p" and "Key E nd = Inr k"
  shows "set (recursePin p) \<inter> set (directPin p) = {}
       \<and> k \<notin> set (directPin (snd (Pin E p nd True)))
       \<and> (k \<in> set (recursePin p) \<longrightarrow>
            fst (Pin E p nd False) \<noteq> None
          \<and> directPin (snd (Pin E p nd False)) = directPin p)"
proof -
  have d: "disjointPins p" using run_disjoint[OF NewPinner_disjoint assms(1)] .
  then have 1: "set (recursePin p) \<inter> set (directPin p) = {}" by (simp add: disjointPins_def)
  have 2: "k \<notin> set (directPin (snd (Pin E p nd True)))"
    using 1 assms(2)
    by (auto simp: Pin_def HasKey_def AddBlock_def RemoveBlock_def Let_def split: option.splits)
  have 3: "k \<in> set (recursePin p) \<longrightarrow>
            fst (Pin E p nd False) \<noteq> None \<and> directPin (snd (Pin E p nd False)) = directPin p"
    using assms(2) by (auto simp: Pin_def HasKey_def split: sum.splits)
  from 1 2 3 show ?thesis by blast
qed

theorem pins_never_both_witness:
  "run demoEnv (NewPinner demoDatastore demoStore) demoOps = Some demoFinal
   \<and> Key demoEnv nodeB = Inr ''#B''
   \<and> set (recursePin demoFinal) \<inter> set (directPin demoFinal) = {}
   \<and> ''#B'' \<notin> set (directPin (snd (Pin demoEnv demoFinal nodeB True)))
   \<and> fst (Pin demoEnv demoFinal nodeB False) \<noteq> None
   \<and> directPin (snd (Pin demoEnv demoFinal nodeB False)) = directPin demoFinal"
proof -
  have h1: "run demoEnv (NewPinner demoDatastore demoStore) demoOps = Some demoFinal"
    by (simp add: demo_defs op_defs)
  have h2: "Key demoEnv nodeB = Inr ''#B''" by (simp add: demo_defs)
  have h3: "''#B'' \<in> set (recursePin demoFinal)" by (simp add: demo_defs)
  from pins_never_both[OF h1 h2] h1 h2 h3 show ?thesis by blast
qed

text \<open>
  Claim C3, as the code has it. \<open>Pin\<close> with \<open>recurse = false\<close> first asks the DAG service for
  the target and returns its error when the target is absent; only then does it look
  at \<open>recursePin\<close> and fail with "already pinned recursively"; otherwise it succeeds and
  adds the target to \<open>directPin\<close>. A failing call leaves the pinner unchanged. The fetch
  is attempted before the check, not after it.
\<close>

theorem Pin_direct_fetch_then_check:
  assumes "Key E nd = Inr k"
  shows "(dserv p k = None \<longrightarrow> Pin E p nd False = (Some ErrNotFound, p))
       \<and> (dserv p k \<noteq> None \<and> k \<in> set (recursePin p) \<longrightarrow>
            Pin E p nd False = (Some (AlreadyPinnedRecursively (B58String E k)), p))
       \<and> (dserv p k \<noteq> None \<and> k \<notin> set (recursePin p) \<longrightarrow>
            fst (Pin E p nd False) = None
            \<and> set (directPin (snd (Pin E p nd False))) = insert k (set (directPin p))
            \<and> recursePin (snd (Pin E p nd False)) = recursePin p)"
  using assms by (auto simp: Pin_def dag_Get_def HasKey_def AddBlock_def split: option.splits)

theorem Pin_direct_fetch_then_check_witness:
  "Pin demoEnv emptyPinner nodeC False = (Some ErrNotFound, emptyPinner)
   \<and> Pin demoEnv demoFinal nodeB False
       = (Some (AlreadyPinnedRecursively (B58String demoEnv ''#B'')), demoFinal)
   \<and> fst (Pin demoEnv emptyPinner nodeB False) = None
   \<and> set (directPin (snd (Pin demoEnv emptyPinner nodeB False))) = {''#B''}"
proof -
  have kB: "Key demoEnv nodeB = Inr ''#B''" and kC: "Key demoEnv nodeC = Inr ''#C''"
    by (simp_all add: demo_defs)
  have a: "dserv emptyPinner ''#C'' = None" by (simp add: demo_defs)
  have b: "dserv demoFinal ''#B'' \<noteq> None \<and> ''#B'' \<in> set (recursePin demoFinal)"
    by (simp add: demo_defs)
  have c: "dserv emptyPinner ''#B'' \<noteq> None \<and> ''#B'' \<notin> set (recursePin emptyPinner)"
    by (simp add: demo_defs)
  have d: "directPin emptyPinner = []" by (simp add: demo_defs)
  from Pin_direct_fetch_then_check[OF kC, where p = emptyPinner] Pin_direct_fetch_then_check[OF kB, where p = demoFinal]
    Pin_direct_fetch_then_check[OF kB, where p = emptyPinner] a b c d
  show ?thesis by simp
qed

text \<open>
  Claim C3 as the specification words it: with the target in \<open>recursePin\<close> and absent
  from the store, the error is the one of the fetch, not "already pinned recursively".
\<close>

theorem Pin_direct_fetches_first_counterexample:
  "Key demoEnv nodeC = Inr ''#C'' \<and> HasKey (recursePin pinnedC) ''#C''
   \<and> fst (Pin demoEnv pinnedC nodeC False) = Some ErrNotFound
   \<and> fst (Pin demoEnv pinnedC nodeC False)
       \<noteq> Some (AlreadyPinnedRecursively (B58String demoEnv ''#C''))"
  by (simp add: demo_defs op_defs)

text \<open>
  Claim C4. For a target that is not recursively pinned, a failing graph fetch makes the
  recursive \<open>Pin\<close> return the fetch error with \<open>recursePin\<close> unchanged and the target
  not classified recursive. For a target already in \<open>recursePin\<close> the call succeeds
  and changes nothing, whatever the graph fetch would have answered.
\<close>

theorem Pin_recursive_fail:
  assumes "Key E nd = Inr k"
  shows "(k \<notin> set (recursePin p) \<and> FetchGraph E (dserv p) nd = Some err \<longrightarrow>
            fst (Pin E p nd True) = Some err
          \<and> recursePin (snd (Pin E p nd True)) = recursePin p
          \<and> isPinnedWithType E (snd (Pin E p nd True)) k ''recursive'' = Some ('''', False, None))
       \<and> (k \<in> set (recursePin p) \<longrightarrow> (\<forall>fg. Pin (E\<lparr>FetchGraph := fg\<rparr>) p nd True = (None, p)))"
  using assms by (auto simp: Pin_def HasKey_def isPinnedWithType_def Let_def split: option.splits)

theorem Pin_recursive_fail_witness:
  "Key demoEnv nodeA = Inr keyA
   \<and> FetchGraph demoEnv (dserv emptyPinner) nodeA = Some ErrNotFound
   \<and> fst (Pin demoEnv emptyPinner nodeA True) = Some ErrNotFound
   \<and> recursePin (snd (Pin demoEnv emptyPinner nodeA True)) = []
   \<and> Pin (demoEnv\<lparr>FetchGraph := (\<lambda>ds nd. Some ErrNotFound)\<rparr>) pinnedA nodeA True = (None, pinnedA)"
proof -
  have k: "Key demoEnv nodeA = Inr keyA" by (simp add: demo_defs)
  have a: "keyA \<notin> set (recursePin emptyPinner)
           \<and> FetchGraph demoEnv (dserv emptyPinner) nodeA = Some ErrNotFound"
    by (simp add: demo_defs)
  have b: "keyA \<in> set (recursePin pinnedA)" by (simp add: demo_defs)
  have c: "recursePin emptyPinner = []" by (simp add: demo_defs)
  from Pin_recursive_fail[OF k, where p = emptyPinner and err = ErrNotFound]
    Pin_recursive_fail[OF k, where p = pinnedA] a b c k
  show ?thesis by auto
qed

text \<open>
  Claim C10. When the target of a recursive \<open>Pin\<close> is directly pinned and the graph fetch
  fails, the call returns the fetch error, the target has left \<open>directPin\<close> and has
  not entered \<open>recursePin\<close>: the direct entry is not restored.
\<close>

theorem Pin_recursive_fetch_error_drops_direct:
  assumes "Key E nd = Inr k" and "k \<in> set (directPin p)" and "k \<notin> set (recursePin p)"
    and "FetchGraph E (dserv p) nd = Some err"
  shows "Pin E p nd True = (Some err, p\<lparr>directPin := RemoveBlock (directPin p) k\<rparr>)
       \<and> k \<notin> set (directPin (snd (Pin E p nd True)))
       \<and> k \<notin> set (recursePin (snd (Pin E p nd True)))
       \<and> isPinnedWithType E (snd (Pin E p nd True)) k ''direct'' = Some ('''', False, None)
       \<and> isPinnedWithType E (snd (Pin E p nd True)) k ''recursive'' = Some ('''', False, None)"
  using assms by (simp add: Pin_def HasKey_def RemoveBlock_def isPinnedWithType_def)

theorem Pin_recursive_fetch_error_drops_direct_witness:
  "Pin demoEnv directA nodeA True = (Some ErrNotFound, directA\<lparr>directPin := []\<rparr>)"
proof -
  have k: "Key demoEnv nodeA = Inr keyA" by (simp add: demo_defs)
  have a: "keyA \<in> set (directPin directA)" "keyA \<notin> set (recursePin directA)"
     "FetchGraph demoEnv (dserv directA) nodeA = Some ErrNotFound"
    by (simp_all add: demo_defs)
  have b: "RemoveBlock (directPin directA) keyA = []" by (simp add: demo_defs RemoveBlock_def)
  from Pin_recursive_fetch_error_drops_direct[OF k a] b show ?thesis by simp
qed

text \<open>
  Claim C5. \<open>Unpin\<close> answers \<open>ErrNotPinned\<close> exactly when the target is pinned under none
  of the four classifications. A target in \<open>recursePin\<close> is removed when the flag
  \<open>recursive\<close> is set and the call fails without a change otherwise; a target in
  \<open>directPin\<close> (and not in \<open>recursePin\<close>) is removed whatever the flag; a target that
  is only indirectly pinned makes the call fail with an error that names the base58
  string of the recursive root above it, and nothing changes. The explanation is a
  string, and \<open>Unpin\<close> compares it with "recursive" and "direct"; the
  base58 string of a recursive root held by the store is a rendering of a multihash and
  is neither word, which is the assumption.
\<close>

theorem Unpin_cases:
  assumes "\<forall>rk \<in> set (recursePin p). dserv p rk \<noteq> None \<longrightarrow>
             B58String E rk \<noteq> ''recursive'' \<and> B58String E rk \<noteq> ''direct''"
  shows "((map_option fst (Unpin E p k r) = Some (Some ErrNotPinned)) =
          (\<forall>m \<in> {''recursive'', ''direct'', ''internal'', ''indirect''}.
              IsPinnedWithType E p k m = Some ('''', False, None)))
      \<and> (k \<in> set (recursePin p) \<longrightarrow>
            Unpin E p k True = Some (None, p\<lparr>recursePin := RemoveBlock (recursePin p) k\<rparr>)
          \<and> k \<notin> set (RemoveBlock (recursePin p) k)
          \<and> Unpin E p k False = Some (Some (IsPinnedRecursively k), p))
      \<and> (k \<notin> set (recursePin p) \<and> k \<in> set (directPin p) \<longrightarrow>
            Unpin E p k r = Some (None, p\<lparr>directPin := RemoveBlock (directPin p) k\<rparr>)
          \<and> k \<notin> set (RemoveBlock (directPin p) k))
      \<and> (k \<notin> set (recursePin p) \<and> k \<notin> set (directPin p) \<and> k \<notin> internalPin p
          \<and> IsPinnedWithType E p k ''indirect'' = Some (s, True, None) \<longrightarrow>
            Unpin E p k r = Some (Some (IsPinnedIndirectly k s), p)
          \<and> (\<exists>rk \<in> set (recursePin p). s = B58String E rk))"
proof -
  have 2: "k \<in> set (recursePin p) \<longrightarrow>
            Unpin E p k True = Some (None, p\<lparr>recursePin := RemoveBlock (recursePin p) k\<rparr>)
          \<and> k \<notin> set (RemoveBlock (recursePin p) k)
          \<and> Unpin E p k False = Some (Some (IsPinnedRecursively k), p)"
    by (simp add: Unpin_def isPinnedWithType_def HasKey_def RemoveBlock_def)
  have 3: "k \<notin> set (recursePin p) \<and> k \<in> set (directPin p) \<longrightarrow>
            Unpin E p k r = Some (None, p\<lparr>directPin := RemoveBlock (directPin p) k\<rparr>)
          \<and> k \<notin> set (RemoveBlock (directPin p) k)"
    by (simp add: Unpin_def isPinnedWithType_def HasKey_def RemoveBlock_def)
  have 4: "k \<notin> set (recursePin p) \<and> k \<notin> set (directPin p) \<and> k \<notin> internalPin p
          \<and> IsPinnedWithType E p k ''indirect'' = Some (s, True, None) \<longrightarrow>
            Unpin E p k r = Some (Some (IsPinnedIndirectly k s), p)
          \<and> (\<exists>rk \<in> set (recursePin p). s = B58String E rk)"
  proof (intro impI)
    assume a: "k \<notin> set (recursePin p) \<and> k \<notin> set (directPin p) \<and> k \<notin> internalPin p
          \<and> IsPinnedWithType E p k ''indirect'' = Some (s, True, None)"
    then have w: "indirectWalk E (dserv p) (recursePin p) k = Some (s, True, None)"
      by (simp add: IsPinnedWithType_def isPinnedWithType_def GetKeys_def)
    from indirectWalk_result[OF w] obtain rk where rk: "rk \<in> set (recursePin p)"
      "dserv p rk \<noteq> None" "s = B58String E rk" by auto
    with assms have s: "s \<noteq> ''recursive''" "s \<noteq> ''direct''" by auto
    from a w s have "Unpin E p k r = Some (Some (IsPinnedIndirectly k s), p)"
      by (simp add: Unpin_def isPinnedWithType_def HasKey_def isInternalPin_def GetKeys_def)
    with rk show "Unpin E p k r = Some (Some (IsPinnedIndirectly k s), p)
          \<and> (\<exists>rk \<in> set (recursePin p). s = B58String E rk)" by blast
  qed
  have 1: "(map_option fst (Unpin E p k r) = Some (Some ErrNotPinned)) =
          (\<forall>m \<in> {''recursive'', ''direct'', ''internal'', ''indirect''}.
              IsPinnedWithType E p k m = Some ('''', False, None))"
  proof (cases "k \<in> set (recursePin p) \<or> k \<in> set (directPin p) \<or> k \<in> internalPin p")
    case True
    then show ?thesis
      by (auto simp: Unpin_def IsPinnedWithType_def isPinnedWithType_def HasKey_def
                     isInternalPin_def)
  next
    case False
    then have all: "isPinnedWithType E p k ''all'' = indirectWalk E (dserv p) (recursePin p) k"
      and ind: "isPinnedWithType E p k ''indirect'' = indirectWalk E (dserv p) (recursePin p) k"
      and others: "isPinnedWithType E p k ''recursive'' = Some ('''', False, None)"
         "isPinnedWithType E p k ''direct'' = Some ('''', False, None)"
         "isPinnedWithType E p k ''internal'' = Some ('''', False, None)"
      by (simp_all add: isPinnedWithType_def HasKey_def isInternalPin_def GetKeys_def)
    show ?thesis
    proof (cases "indirectWalk E (dserv p) (recursePin p) k")
      case None
      with all ind others show ?thesis
        by (simp add: Unpin_def IsPinnedWithType_def)
    next
      case (Some res)
      obtain s' b err where res: "res = (s', b, err)" by (cases res) auto
      from indirectWalk_result[OF Some[unfolded res]] all ind others Some res show ?thesis
        by (auto simp: Unpin_def IsPinnedWithType_def split: option.splits if_splits)
    qed
  qed
  from 1 2 3 4 show ?thesis by blast
qed

theorem Unpin_cases_witness:
  "Unpin demoEnv emptyPinner ''#B'' True = Some (Some ErrNotPinned, emptyPinner)
   \<and> Unpin demoEnv pinnedA keyA True = Some (None, pinnedA\<lparr>recursePin := []\<rparr>)
   \<and> Unpin demoEnv pinnedA keyA False = Some (Some (IsPinnedRecursively keyA), pinnedA)
   \<and> Unpin demoEnv directA keyA False = Some (None, directA\<lparr>directPin := []\<rparr>)
   \<and> Unpin demoEnv pinnedA ''#B'' True
        = Some (Some (IsPinnedIndirectly ''#B'' (B58String demoEnv keyA)), pinnedA)"
proof -
  have pa: "\<forall>rk \<in> set (recursePin pinnedA). dserv pinnedA rk \<noteq> None \<longrightarrow>
             B58String demoEnv rk \<noteq> ''recursive'' \<and> B58String demoEnv rk \<noteq> ''direct''"
    and pd: "\<forall>rk \<in> set (recursePin directA). dserv directA rk \<noteq> None \<longrightarrow>
             B58String demoEnv rk \<noteq> ''recursive'' \<and> B58String demoEnv rk \<noteq> ''direct''"
    and pe: "\<forall>rk \<in> set (recursePin emptyPinner). dserv emptyPinner rk \<noteq> None \<longrightarrow>
             B58String demoEnv rk \<noteq> ''recursive'' \<and> B58String demoEnv rk \<noteq> ''direct''"
    by (simp_all add: demo_defs)
  have e: "\<forall>m \<in> {''recursive'', ''direct'', ''internal'', ''indirect''}.
              IsPinnedWithType demoEnv emptyPinner ''#B'' m = Some ('''', False, None)"
    by (simp add: demo_defs op_defs)
  have a: "keyA \<in> set (recursePin pinnedA)" "RemoveBlock (recursePin pinnedA) keyA = []"
    by (simp_all add: demo_defs RemoveBlock_def)
  have b: "keyA \<notin> set (recursePin directA) \<and> keyA \<in> set (directPin directA)"
     "RemoveBlock (directPin directA) keyA = []"
    by (simp_all add: demo_defs RemoveBlock_def)
  have d: "''#B'' \<notin> set (recursePin pinnedA) \<and> ''#B'' \<notin> set (directPin pinnedA)
         \<and> ''#B'' \<notin> internalPin pinnedA
         \<and> IsPinnedWithType demoEnv pinnedA ''#B'' ''indirect''
             = Some (B58String demoEnv keyA, True, None)"
    by (simp add: demo_defs op_defs)
  have u: "Unpin demoEnv emptyPinner ''#B'' True = Some (Some ErrNotPinned, emptyPinner)"
    by (simp add: demo_defs op_defs)
  from Unpin_cases[OF pe, where k = "''#B''" and r = True] Unpin_cases[OF pa, where k = keyA]
       Unpin_cases[OF pd, where k = keyA and r = False]
       Unpin_cases[OF pa, where k = "''#B''" and s = "B58String demoEnv keyA" and r = True]
       e a b d u
  show ?thesis by simp
qed



text \<open>
  Claim C9. \<open>RemovePinWithMode\<close> panics on a mode other than \<open>Recursive\<close> and \<open>Direct\<close>;
  \<open>PinWithMode\<close> has no default branch and returns without a change on the same mode.
\<close>

theorem PinWithMode_unrecognized_mode:
  "PinWithMode p k NotPinned = Returns p
   \<and> RemovePinWithMode p k NotPinned = Panics ''unrecognized pin type''"
  by (simp add: PinWithMode_def RemovePinWithMode_def NotPinned_def Recursive_def Direct_def)

end
